theory Spec2Isabelle
  imports Main "HOL-Library.Word"
begin

section \<open>Strings and paths as Python has them\<close>

text \<open>
  \<^verbatim>\<open>str.lower()\<close>.  Strings are byte lists here, so only the ASCII letters are
  mapped; every name the code compares against (targets, suffixes, storage-class
  names, column markers) is ASCII.
\<close>

definition lower_char :: "char \<Rightarrow> char" where
  "lower_char c =
     (case map_of (zip ''ABCDEFGHIJKLMNOPQRSTUVWXYZ'' ''abcdefghijklmnopqrstuvwxyz'') c of
        Some d \<Rightarrow> d
      | None \<Rightarrow> c)"

definition lower :: "string \<Rightarrow> string" where
  "lower s = map lower_char s"

text \<open>\<^verbatim>\<open>s.startswith(p)\<close> and \<^verbatim>\<open>sub in s\<close> on strings.\<close>

fun startswith :: "string \<Rightarrow> string \<Rightarrow> bool" where
  "startswith s [] = True"
| "startswith [] (p # ps) = False"
| "startswith (c # cs) (p # ps) = (c = p \<and> startswith cs ps)"

fun contains :: "string \<Rightarrow> string \<Rightarrow> bool" where
  "contains [] sub = (sub = [])"
| "contains (c # cs) sub = (startswith (c # cs) sub \<or> contains cs sub)"

text \<open>\<^verbatim>\<open>s.split(sep)\<close> for a one-character separator; the result is never empty.\<close>

fun split :: "char \<Rightarrow> string \<Rightarrow> string list" where
  "split sep [] = [[]]"
| "split sep (c # cs) =
     (if c = sep then [] # split sep cs
      else (case split sep cs of
              w # ws \<Rightarrow> (c # w) # ws
            | [] \<Rightarrow> [[c]]))"

text \<open>\<^verbatim>\<open>name.rfind('.')\<close>: the index of the last dot, or \<open>-1\<close>.\<close>

fun rfind_dot :: "string \<Rightarrow> int" where
  "rfind_dot [] = -1"
| "rfind_dot (c # cs) =
     (let r = rfind_dot cs
      in if r \<ge> 0 then r + 1 else if c = CHR ''.'' then 0 else -1)"

text \<open>
  A \<^verbatim>\<open>pathlib.Path\<close> is the list of its components.  The empty list is the path
  \<^verbatim>\<open>.\<close>, whose name is the empty string and whose parent is itself.
\<close>

type_synonym path = "string list"

definition name :: "path \<Rightarrow> string" where
  "name p = (if p = [] then [] else last p)"

definition parent :: "path \<Rightarrow> path" where
  "parent p = butlast p"

text \<open>
  \<^verbatim>\<open>PurePath.stem\<close> and \<^verbatim>\<open>PurePath.suffix\<close>: with \<open>i\<close> the index of the last dot
  of the name, the name is cut at \<open>i\<close> when \<open>0 < i < len(name) - 1\<close>.
\<close>

definition stem :: "path \<Rightarrow> string" where
  "stem p =
     (let n = name p; i = rfind_dot n
      in if 0 < i \<and> i < int (length n) - 1 then take (nat i) n else n)"

definition suffix :: "path \<Rightarrow> string" where
  "suffix p =
     (let n = name p; i = rfind_dot n
      in if 0 < i \<and> i < int (length n) - 1 then drop (nat i) n else [])"

section \<open>Errors, tables, files and records\<close>

text \<open>
  The exceptions the code can raise.  The first three are plain \<^verbatim>\<open>Exception\<close>s in
  the source, told apart by their message.
\<close>

datatype error =
    NoInputError
  | AmbiguousDatatypeError
  | UnavailableDatatypeError
  | TypeError
  | IndexError
  | KeyError
  | UnboundLocalError
  | FileNotFoundError
  | ArrowInvalid
  | ValueError
  | OperationalError
  | IntegrityError
  | IsADirectoryError

text \<open>
  An Arrow table is a list of columns; a column is a field (name and type name)
  with its values.  A schema is the list of fields, in order.
\<close>

datatype scalar = ANull | AInt int | ADouble "64 word" | AString string

type_synonym field = "string \<times> string"
type_synonym column = "field \<times> scalar list"
type_synonym table = "column list"

definition schema :: "table \<Rightarrow> field list" where
  "schema t = map fst t"

definition column_names :: "table \<Rightarrow> string list" where
  "column_names t = map (fst \<circ> fst) t"

text \<open>
  A file on disk is a delimited file (with the table \<^verbatim>\<open>csv.read_csv\<close> parses
  from it), a complete columnar file, or something neither reader accepts (such
  as a columnar file whose writer is still open).
\<close>

datatype disk_file = Csv table | Parquet table | Unreadable

text \<open>What the code does to files, in the order it does it.\<close>

datatype event =
    Wrote path
  | Opened path
  | Appended path
  | Unlinked path
  | Closed path

text \<open>
  The file system: the files by path, the directories that exist, and what was
  done to files.  The empty path is the current directory, which always exists.
\<close>

record fs =
  files :: "path \<rightharpoonup> disk_file"
  dirs :: "path set"
  trace :: "event list"

definition is_dir :: "fs \<Rightarrow> path \<Rightarrow> bool" where
  "is_dir st d = (d = [] \<or> d \<in> dirs st)"

text \<open>
  A step that changes the file system returns the state it leaves behind also
  when it raises: the state at the moment of the exception, with the exception.
\<close>

type_synonym 'a outcome = "(fs \<times> error) + (fs \<times> 'a)"

text \<open>
  The dictionaries passed between stages have the key \<^verbatim>\<open>source_path\<close> and,
  depending on the stage, \<^verbatim>\<open>table\<close> and \<^verbatim>\<open>destination_path\<close>.
\<close>

record source_record =
  source_path :: path
  table :: "table option"
  destination_path :: "path option"

type_synonym record_group = "source_record list"
type_synonym records = "(string \<times> record_group) list"

section \<open>FileGrouper\<close>

definition DEFAULT_TARGETS :: "string list" where
  "DEFAULT_TARGETS = [''image'', ''cells'', ''nuclei'', ''cytoplasm'']"

text \<open>The record \<^verbatim>\<open>{"source_path": file}\<close>.\<close>

definition new_record :: "path \<Rightarrow> source_record" where
  "new_record file = \<lparr>source_path = file, table = None, destination_path = None\<rparr>"

text \<open>
  The first loop of \<^verbatim>\<open>get_source_filepaths\<close> over \<^verbatim>\<open>glob("**/*")\<close>, given as the
  list of entries with the answer of \<^verbatim>\<open>is_file()\<close>.  The condition is
  \<^verbatim>\<open>file.is_file() and (stem.lower() in targets or targets is None)\<close>: for a
  file, \<^verbatim>\<open>in targets\<close> is evaluated first, and raises TypeError on \<^verbatim>\<open>None\<close>.
\<close>

fun collect_records ::
  "string list option \<Rightarrow> (path \<times> bool) list \<Rightarrow> source_record list \<Rightarrow> error + source_record list"
where
  "collect_records targets [] acc = Inr acc"
| "collect_records targets ((file, is_file) # rest) acc =
     (if is_file then
        (case targets of
           None \<Rightarrow> Inl TypeError
         | Some ts \<Rightarrow>
             if lower (stem file) \<in> set ts
             then collect_records targets rest (acc @ [new_record file])
             else collect_records targets rest acc)
      else collect_records targets rest acc)"

text \<open>
  The second loop: one key per distinct file name, each mapped to the records of
  that name in traversal order.  The source iterates over a \<^verbatim>\<open>set\<close>, so the
  order of the keys is not fixed; here it is the order of first occurrence.
\<close>

definition group_records :: "source_record list \<Rightarrow> records" where
  "group_records rs =
     map (\<lambda>unique_source.
            (unique_source, filter (\<lambda>source. name (source_path source) = unique_source) rs))
         (remdups (map (\<lambda>source. name (source_path source)) rs))"

definition get_source_filepaths ::
  "(path \<times> bool) list \<Rightarrow> string list option \<Rightarrow> error + records"
where
  "get_source_filepaths entries targets =
     (case collect_records targets entries [] of
        Inl e \<Rightarrow> Inl e
      | Inr rs \<Rightarrow> if length rs < 1 then Inl NoInputError else Inr (group_records rs))"

section \<open>DatatypeInferencer and filter\<close>

text \<open>
  \<^verbatim>\<open>suffixes = list(set(group.split(".")[-1].lower() for group in records))\<close>;
  the order of the list is not fixed in the source, and only \<^verbatim>\<open>suffixes[0]\<close> of a
  list of at most one element is ever read.
\<close>

definition suffix_of :: "string \<Rightarrow> string" where
  "suffix_of key = lower (last (split CHR ''.'' key))"

definition suffixes :: "records \<Rightarrow> string list" where
  "suffixes rs = remdups (map (\<lambda>(key, _). suffix_of key) rs)"

definition infer_source_datatype :: "records \<Rightarrow> string option \<Rightarrow> error + string" where
  "infer_source_datatype rs target_datatype =
     (if target_datatype = None \<and> length (suffixes rs) > 1 then Inl AmbiguousDatatypeError
      else if target_datatype \<noteq> None \<and> the target_datatype \<notin> set (suffixes rs)
           then Inl UnavailableDatatypeError
      else (case target_datatype of
              None \<Rightarrow> (case suffixes rs of [] \<Rightarrow> Inl IndexError | s # _ \<Rightarrow> Inr s)
            | Some t \<Rightarrow> Inr t))"

definition filter_source_filepaths :: "records \<Rightarrow> string \<Rightarrow> records" where
  "filter_source_filepaths rs target_datatype =
     filter (\<lambda>(key, val). suffix [key] = CHR ''.'' # target_datatype) rs"

definition gather_records ::
  "(path \<times> bool) list \<Rightarrow> string option \<Rightarrow> string list option \<Rightarrow> error + records"
where
  "gather_records entries source_datatype targets =
     (let targets' = (case targets of None \<Rightarrow> DEFAULT_TARGETS | Some ts \<Rightarrow> ts)
      in case get_source_filepaths entries (Some targets') of
           Inl e \<Rightarrow> Inl e
         | Inr rs \<Rightarrow>
             (case infer_source_datatype rs source_datatype of
                Inl e \<Rightarrow> Inl e
              | Inr dt \<Rightarrow> Inr (filter_source_filepaths rs dt)))"

section \<open>TableReader and ColumnarWriter\<close>

text \<open>\<^verbatim>\<open>pathlib.Path(f"{directory}/{component}")\<close>: an empty or \<^verbatim>\<open>.\<close> component is dropped.\<close>

definition joinpath :: "path \<Rightarrow> string \<Rightarrow> path" where
  "joinpath directory component =
     (if component = [] \<or> component = ''.'' then directory else directory @ [component])"

text \<open>A task mapped over the members of a group, in order; the first failure surfaces.\<close>

fun map_result :: "('a \<Rightarrow> 'e + 'b) \<Rightarrow> 'a list \<Rightarrow> 'e + 'b list" where
  "map_result f [] = Inr []"
| "map_result f (x # xs) =
     (case f x of
        Inl e \<Rightarrow> Inl e
      | Inr y \<Rightarrow> (case map_result f xs of Inl e \<Rightarrow> Inl e | Inr ys \<Rightarrow> Inr (y # ys)))"

definition read_csv :: "fs \<Rightarrow> source_record \<Rightarrow> error + source_record" where
  "read_csv st r =
     (case files st (source_path r) of
        None \<Rightarrow> Inl FileNotFoundError
      | Some (Csv t) \<Rightarrow> Inr (r\<lparr>table := Some t\<rparr>)
      | Some _ \<Rightarrow> Inl ArrowInvalid)"

text \<open>
  \<^verbatim>\<open>read_files\<close> binds \<^verbatim>\<open>tables_map\<close> only for the suffix \<^verbatim>\<open>.csv\<close>; for any other
  suffix the \<^verbatim>\<open>return\<close> reads an unbound local.
\<close>

definition read_files :: "fs \<Rightarrow> string \<Rightarrow> record_group \<Rightarrow> error + record_group" where
  "read_files st record_group_name record_group =
     (if suffix [record_group_name] = ''.csv''
      then map_result (read_csv st) record_group
      else Inl UnboundLocalError)"

text \<open>
  \<^verbatim>\<open>pathlib.Path(dest_path).mkdir(parents=True, exist_ok=True)\<close>: the directory
  and every directory above it exist afterwards.
\<close>

fun directories_to :: "path \<Rightarrow> path list" where
  "directories_to [] = []"
| "directories_to (c # cs) = [c] # map ((#) c) (directories_to cs)"

definition mkdir :: "fs \<Rightarrow> path \<Rightarrow> fs" where
  "mkdir st d = st\<lparr>dirs := dirs st \<union> set (directories_to d)\<rparr>"

text \<open>
  \<^verbatim>\<open>write_parquet\<close>: the destination directory is made, the default destination is
  \<^verbatim>\<open>{dest_path}/{stem}.parquet\<close>, and with \<^verbatim>\<open>unique_name\<close> it is
  \<^verbatim>\<open>{dest_path}/{parent.name}.{stem}.parquet\<close>.  The table is written as it is, the
  key \<^verbatim>\<open>table\<close> is deleted and \<^verbatim>\<open>destination_path\<close> is set.
\<close>

definition destination_filename :: "path \<Rightarrow> bool \<Rightarrow> string" where
  "destination_filename source unique_name =
     (if unique_name
      then name (parent source) @ ''.'' @ stem source @ ''.parquet''
      else stem source @ ''.parquet'')"

definition write_parquet ::
  "fs \<Rightarrow> source_record \<Rightarrow> path \<Rightarrow> bool \<Rightarrow> source_record outcome"
where
  "write_parquet st r dest_path unique_name =
     (let st1 = mkdir st dest_path;
          destination = joinpath dest_path (destination_filename (source_path r) unique_name)
      in case table r of
           None \<Rightarrow> Inl (st1, KeyError)
         | Some t \<Rightarrow>
             Inr (st1\<lparr>files := (files st1)(destination \<mapsto> Parquet t),
                       trace := trace st1 @ [Wrote destination]\<rparr>,
                  r\<lparr>table := None, destination_path := Some destination\<rparr>))"

text \<open>\<^verbatim>\<open>write_parquet.map(record=record_group, ...)\<close>, member by member.\<close>

fun write_parquet_map ::
  "fs \<Rightarrow> record_group \<Rightarrow> path \<Rightarrow> bool \<Rightarrow> record_group outcome"
where
  "write_parquet_map st [] dest_path unique_name = Inr (st, [])"
| "write_parquet_map st (r # rs) dest_path unique_name =
     (case write_parquet st r dest_path unique_name of
        Inl failed \<Rightarrow> Inl failed
      | Inr (st', r') \<Rightarrow>
          (case write_parquet_map st' rs dest_path unique_name of
             Inl failed \<Rightarrow> Inl failed
           | Inr (st'', rs') \<Rightarrow> Inr (st'', r' # rs')))"

section \<open>Concatenator\<close>

definition read_table :: "fs \<Rightarrow> path \<Rightarrow> error + table" where
  "read_table st p =
     (case files st p of
        None \<Rightarrow> Inl FileNotFoundError
      | Some (Parquet t) \<Rightarrow> Inr t
      | Some _ \<Rightarrow> Inl ArrowInvalid)"

text \<open>
  \<^verbatim>\<open>parquet.read_table(p, columns=names)\<close>: the named columns, in the order of
  \<open>names\<close>.  A name the file does not have ends in an exception (from the reader
  or, where the reader skips it, from the writer's schema check).
\<close>

fun select_columns :: "table \<Rightarrow> string list \<Rightarrow> error + table" where
  "select_columns t [] = Inr []"
| "select_columns t (n # ns) =
     (case find (\<lambda>c. fst (fst c) = n) t of
        None \<Rightarrow> Inl ArrowInvalid
      | Some c \<Rightarrow> (case select_columns t ns of Inl e \<Rightarrow> Inl e | Inr cs \<Rightarrow> Inr (c # cs)))"

definition read_table_columns :: "fs \<Rightarrow> path \<Rightarrow> string list \<Rightarrow> error + table" where
  "read_table_columns st p names =
     (case read_table st p of Inl e \<Rightarrow> Inl e | Inr t \<Rightarrow> select_columns t names)"

text \<open>Rows of \<open>t\<close> appended below those of \<open>written\<close>, column by column.\<close>

definition append_rows :: "table \<Rightarrow> table \<Rightarrow> table" where
  "append_rows written t = map (\<lambda>((f, vs), (_, ws)). (f, vs @ ws)) (zip written t)"

text \<open>
  \<^verbatim>\<open>ParquetWriter.write_table\<close> raises ValueError unless the table's schema
  equals the schema the writer was created with.
\<close>

definition write_table :: "table \<Rightarrow> table \<Rightarrow> error + table" where
  "write_table written t =
     (if schema t \<noteq> schema written then Inl ValueError else Inr (append_rows written t))"

text \<open>
  \<^verbatim>\<open>pa.concat_tables\<close> with its default options raises unless every table has
  the schema of the first (same fields in the same order).
\<close>

fun concat_onto :: "table \<Rightarrow> table list \<Rightarrow> error + table" where
  "concat_onto acc [] = Inr acc"
| "concat_onto acc (t # ts) =
     (if schema t \<noteq> schema acc then Inl ArrowInvalid else concat_onto (append_rows acc t) ts)"

definition concat_tables :: "table list \<Rightarrow> error + table" where
  "concat_tables ts = (case ts of [] \<Rightarrow> Inl ValueError | t # rest \<Rightarrow> concat_onto t rest)"

definition unlink :: "fs \<Rightarrow> path \<Rightarrow> error + fs" where
  "unlink st p =
     (if files st p = None then Inl FileNotFoundError
      else Inr (st\<lparr>files := (files st)(p := None), trace := trace st @ [Unlinked p]\<rparr>))"

text \<open>
  The loop of the streaming branch of \<^verbatim>\<open>concat_record_group\<close>: each member file is
  read in the column order of the first file, appended to the writer, and then
  unlinked.  \<open>written\<close> is what the open writer holds.
\<close>

fun stream_members :: "table \<Rightarrow> fs \<Rightarrow> table \<Rightarrow> path list \<Rightarrow> table outcome" where
  "stream_members writer_basis st written [] = Inr (st, written)"
| "stream_members writer_basis st written (p # ps) =
     (case read_table_columns st p (column_names writer_basis) of
        Inl e \<Rightarrow> Inl (st, e)
      | Inr t \<Rightarrow>
          (case write_table written t of
             Inl e \<Rightarrow> Inl (st, e)
           | Inr written' \<Rightarrow>
               (case unlink (st\<lparr>trace := trace st @ [Appended p]\<rparr>) p of
                  Inl e \<Rightarrow> Inl (st\<lparr>trace := trace st @ [Appended p]\<rparr>, e)
                | Inr st' \<Rightarrow> stream_members writer_basis st' written' ps)))"

definition subscript_table :: "source_record \<Rightarrow> error + table" where
  "subscript_table r = (case table r of None \<Rightarrow> Inl KeyError | Some t \<Rightarrow> Inr t)"

definition subscript_destination_path :: "source_record \<Rightarrow> error + path" where
  "subscript_destination_path r =
     (case destination_path r of None \<Rightarrow> Inl KeyError | Some p \<Rightarrow> Inr p)"

text \<open>
  The file name of the merged artifact,
  \<^verbatim>\<open>{parent.parent.name}.{stem}.parquet\<close> of the first member's source path.
\<close>

definition concatted_filename :: "path \<Rightarrow> string" where
  "concatted_filename source = name (parent (parent source)) @ ''.'' @ stem source @ ''.parquet''"

text \<open>
  The directory and the path of the merged file.  \<^verbatim>\<open>dest_path\<close> is optional and
  formatted into the path as it is, so \<^verbatim>\<open>None\<close> gives the directory \<^verbatim>\<open>None\<close>.
\<close>

definition concatted_directory :: "path option \<Rightarrow> path" where
  "concatted_directory dest_path = (case dest_path of None \<Rightarrow> [''None''] | Some d \<Rightarrow> d)"

definition concatted_destination :: "path option \<Rightarrow> path \<Rightarrow> path" where
  "concatted_destination dest_path source =
     joinpath (concatted_directory dest_path) (concatted_filename source)"

text \<open>
  \<^verbatim>\<open>if destination_path.exists(): destination_path.unlink()\<close>; a directory
  exists too, and unlinking one raises.
\<close>

definition unlink_if_exists :: "fs \<Rightarrow> path \<Rightarrow> error + fs" where
  "unlink_if_exists st destination =
     (if destination \<in> dirs st then Inl IsADirectoryError
      else if files st destination \<noteq> None
      then Inr (st\<lparr>files := (files st)(destination := None),
                   trace := trace st @ [Unlinked destination]\<rparr>)
      else Inr st)"

text \<open>
  Creating the \<^verbatim>\<open>ParquetWriter\<close> and closing it.  The writer opens its file in
  the directory of the destination, which nothing in \<^verbatim>\<open>concat_record_group\<close>
  creates: without the directory it raises.  While the writer is open the
  destination holds a file no reader accepts; closing it leaves the columnar
  file with everything that was appended.
\<close>

definition open_writer :: "fs \<Rightarrow> path \<Rightarrow> error + fs" where
  "open_writer st destination =
     (if is_dir st (parent destination)
      then Inr (st\<lparr>files := (files st)(destination \<mapsto> Unreadable),
                   trace := trace st @ [Opened destination]\<rparr>)
      else Inl FileNotFoundError)"

definition close_writer :: "fs \<Rightarrow> path \<Rightarrow> table \<Rightarrow> fs" where
  "close_writer st destination written =
     st\<lparr>files := (files st)(destination \<mapsto> Parquet written),
        trace := trace st @ [Closed destination]\<rparr>"

definition no_rows :: "table \<Rightarrow> table" where
  "no_rows writer_basis = map (\<lambda>(f, _). (f, [])) writer_basis"

text \<open>
  \<^verbatim>\<open>concat_record_group\<close>: the tables of the members concatenated when the first
  member holds a table, the files of the members streamed into one file when it
  has a destination path, and the bare merged record otherwise.  An exception
  leaves the file system as it is at that moment: an existing destination
  already unlinked, the members streamed so far already unlinked, the writer
  not closed.
\<close>

definition concat_record_group ::
  "fs \<Rightarrow> record_group \<Rightarrow> path option \<Rightarrow> record_group outcome"
where
  "concat_record_group st record_group dest_path =
     (case record_group of
        [] \<Rightarrow> Inl (st, IndexError)
      | first # _ \<Rightarrow>
          (let concatted =
                 \<lparr>source_path = joinpath (parent (parent (source_path first)))
                                         (stem (source_path first)),
                  table = None, destination_path = None\<rparr>
           in if table first \<noteq> None then
                (case map_result subscript_table record_group of
                   Inl e \<Rightarrow> Inl (st, e)
                 | Inr ts \<Rightarrow>
                     (case concat_tables ts of
                        Inl e \<Rightarrow> Inl (st, e)
                      | Inr t \<Rightarrow> Inr (st, [concatted\<lparr>table := Some t\<rparr>])))
              else if destination_path first \<noteq> None then
                (let destination = concatted_destination dest_path (source_path first)
                 in case unlink_if_exists st destination of
                      Inl e \<Rightarrow> Inl (st, e)
                    | Inr st1 \<Rightarrow>
                        (case read_table st1 (the (destination_path first)) of
                           Inl e \<Rightarrow> Inl (st1, e)
                         | Inr writer_basis \<Rightarrow>
                             (case open_writer st1 destination of
                                Inl e \<Rightarrow> Inl (st1, e)
                              | Inr st2 \<Rightarrow>
                                  (case map_result subscript_destination_path record_group of
                                     Inl e \<Rightarrow> Inl (st2, e)
                                   | Inr tables \<Rightarrow>
                                       (case stream_members writer_basis st2
                                               (no_rows writer_basis) tables of
                                          Inl failed \<Rightarrow> Inl failed
                                        | Inr (st3, written) \<Rightarrow>
                                            Inr (close_writer st3 destination written,
                                                 [concatted\<lparr>destination_path
                                                              := Some destination\<rparr>]))))))
              else Inr (st, [concatted])))"

text \<open>
  \<^verbatim>\<open>concat_records\<close>: groups of fewer than two records are skipped, every other
  group is replaced by the result of \<^verbatim>\<open>concat_record_group\<close>.
\<close>

fun concat_records :: "fs \<Rightarrow> records \<Rightarrow> path option \<Rightarrow> records outcome" where
  "concat_records st [] dest_path = Inr (st, [])"
| "concat_records st ((key, record_group) # rest) dest_path =
     (if length record_group < 2 then
        (case concat_records st rest dest_path of
           Inl failed \<Rightarrow> Inl failed
         | Inr (st', rest') \<Rightarrow> Inr (st', (key, record_group) # rest'))
      else
        (case concat_record_group st record_group dest_path of
           Inl failed \<Rightarrow> Inl failed
         | Inr (st', concatted) \<Rightarrow>
             (case concat_records st' rest dest_path of
                Inl failed \<Rightarrow> Inl failed
              | Inr (st'', rest') \<Rightarrow> Inr (st'', (key, concatted) # rest'))))"

section \<open>Orchestrator\<close>

text \<open>The body of the loop of \<^verbatim>\<open>to_parquet\<close> for one group.\<close>

definition to_parquet_group ::
  "fs \<Rightarrow> string \<Rightarrow> record_group \<Rightarrow> path \<Rightarrow> record_group outcome"
where
  "to_parquet_group st record_group_name record_group dest_path =
     (case (if length (filter (\<lambda>r. table r \<noteq> None) record_group) \<noteq> length record_group
            then read_files st record_group_name record_group
            else Inr record_group) of
        Inl e \<Rightarrow> Inl (st, e)
      | Inr record_group' \<Rightarrow>
          write_parquet_map st record_group' dest_path (length record_group' \<ge> 2))"

fun to_parquet_groups :: "fs \<Rightarrow> records \<Rightarrow> path \<Rightarrow> records outcome" where
  "to_parquet_groups st [] dest_path = Inr (st, [])"
| "to_parquet_groups st ((record_group_name, record_group) # rest) dest_path =
     (case to_parquet_group st record_group_name record_group dest_path of
        Inl failed \<Rightarrow> Inl failed
      | Inr (st', written) \<Rightarrow>
          (case to_parquet_groups st' rest dest_path of
             Inl failed \<Rightarrow> Inl failed
           | Inr (st'', rest') \<Rightarrow> Inr (st'', (record_group_name, written) # rest')))"

definition to_parquet :: "fs \<Rightarrow> records \<Rightarrow> path \<Rightarrow> bool \<Rightarrow> records outcome" where
  "to_parquet st rs dest_path do_concat =
     (case to_parquet_groups st rs dest_path of
        Inl failed \<Rightarrow> Inl failed
      | Inr (st', rs') \<Rightarrow>
          if do_concat then concat_records st' rs' (Some dest_path) else Inr (st', rs'))"

fun to_arrow_groups :: "fs \<Rightarrow> records \<Rightarrow> error + records" where
  "to_arrow_groups st [] = Inr []"
| "to_arrow_groups st ((record_group_name, record_group) # rest) =
     (case read_files st record_group_name record_group of
        Inl e \<Rightarrow> Inl e
      | Inr tables \<Rightarrow>
          (case to_arrow_groups st rest of
             Inl e \<Rightarrow> Inl e
           | Inr rest' \<Rightarrow> Inr ((record_group_name, tables) # rest')))"

definition to_arrow :: "fs \<Rightarrow> records \<Rightarrow> bool \<Rightarrow> records outcome" where
  "to_arrow st rs do_concat =
     (case to_arrow_groups st rs of
        Inl e \<Rightarrow> Inl (st, e)
      | Inr rs' \<Rightarrow> if do_concat then concat_records st rs' None else Inr (st, rs'))"

text \<open>
  \<^verbatim>\<open>convert\<close>; \<open>entries\<close> is what the traversal of \<^verbatim>\<open>source_path\<close> finds.  A
  destination datatype other than the two known ones leaves \<^verbatim>\<open>output\<close> unbound.
\<close>

definition convert ::
  "fs \<Rightarrow> (path \<times> bool) list \<Rightarrow> path \<Rightarrow> string \<Rightarrow> string option \<Rightarrow> string list option \<Rightarrow> bool
     \<Rightarrow> records outcome"
where
  "convert st entries dest_path dest_datatype source_datatype targets do_concat =
     (let targets' = (case targets of None \<Rightarrow> DEFAULT_TARGETS | Some ts \<Rightarrow> ts)
      in case gather_records entries source_datatype (Some targets') of
           Inl e \<Rightarrow> Inl (st, e)
         | Inr rs \<Rightarrow>
             if dest_datatype = ''arrow'' then to_arrow st rs do_concat
             else if dest_datatype = ''parquet'' then to_parquet st rs dest_path do_concat
             else Inl (st, UnboundLocalError))"

section \<open>Column sort key\<close>

definition sort_first :: "string list" where
  "sort_first =
     [''tablenumber'', ''metadata_tablenumber'', ''imagenumber'', ''metadata_imagenumber'',
      ''objectnumber'', ''object_number'']"

definition sort_middle :: string where
  "sort_middle = ''metadata''"

definition sort_later :: "string list" where
  "sort_later = [''image'', ''cytoplasm'', ''cells'', ''nuclei'']"

text \<open>\<^verbatim>\<open>xs.index(x)\<close> for an \<open>x\<close> that is in \<open>xs\<close>.\<close>

fun index :: "'a list \<Rightarrow> 'a \<Rightarrow> nat" where
  "index [] x = 0"
| "index (y # ys) x = (if y = x then 0 else Suc (index ys x))"

text \<open>
  \<^verbatim>\<open>for _k, _v in enumerate(vals, start=k): if value_lower.startswith(_v): return _k\<close>;
  \<open>None\<close> when the loop ends without returning.
\<close>

fun enumerate_startswith :: "string \<Rightarrow> string list \<Rightarrow> nat \<Rightarrow> nat option" where
  "enumerate_startswith value_lower [] k = None"
| "enumerate_startswith value_lower (v # vs) k =
     (if startswith value_lower v then Some k else enumerate_startswith value_lower vs (Suc k))"

text \<open>\<^verbatim>\<open>_column_sort\<close>, the key function for sorting column names.\<close>

definition column_sort :: "string \<Rightarrow> nat" where
  "column_sort column =
     (let value_lower = lower column
      in if value_lower \<in> set sort_first then index sort_first value_lower
         else if contains value_lower sort_middle then length sort_first
         else if list_ex (startswith value_lower) sort_later then
           (case enumerate_startswith value_lower sort_later (length sort_first + 1) of
              Some k \<Rightarrow> k
            | None \<Rightarrow> length sort_first + length sort_later + 1)
         else length sort_first + length sort_later + 1)"

section \<open>ChunkedExtractor\<close>

text \<open>
  A value of the embedded database with its storage class; \<^verbatim>\<open>typeof\<close> names the
  class.  A real is kept as its 64 bits, a blob as its bytes.
\<close>

datatype sqlite_value =
    SqlNull
  | SqlInteger int
  | SqlReal "64 word"
  | SqlText string
  | SqlBlob "8 word list"

fun typeof :: "sqlite_value \<Rightarrow> string" where
  "typeof SqlNull = ''null''"
| "typeof (SqlInteger _) = ''integer''"
| "typeof (SqlReal _) = ''real''"
| "typeof (SqlText _) = ''text''"
| "typeof (SqlBlob _) = ''blob''"

text \<open>
  A table of the database: what \<^verbatim>\<open>pragma_table_info\<close> reports (column name and
  declared type, in column order) and the rows in scan order, each with one
  value per column.
\<close>

record sqlite_table =
  column_info :: "(string \<times> string) list"
  table_rows :: "sqlite_value list list"

type_synonym database = "string \<rightharpoonup> sqlite_table"

text \<open>
  One element of \<^verbatim>\<open>query_parts\<close>, the text
  \<^verbatim>\<open>CASE WHEN typeof(c) != 't' THEN NULL ELSE c END AS c\<close>: the column name is
  pasted three times as it is, without quotes, and the lowercased declared type
  is pasted between apostrophes.
\<close>

datatype query_part = Case_typeof_ne_null_else_as string string string string

definition query_parts :: "(string \<times> string) list \<Rightarrow> query_part list" where
  "query_parts cols =
     map (\<lambda>(column_name, column_type).
            Case_typeof_ne_null_else_as column_name (lower column_type) column_name column_name)
         cols"

text \<open>
  The engine's side.  The engine gets text, and a name in it is read as the
  column or table of that name only when it is an identifier of the engine's
  grammar: a letter, an underscore or a non-ASCII byte, followed by such
  characters, digits or dollar signs, and not one of the engine's reserved
  words.  The list of reserved words belongs to the engine and its version; it
  is the parameter \<open>reserved\<close>, in lower case.  A part is read
  as meant when its three names are and the literal has no apostrophe; a
  statement with a part or a table name that is not read as meant is given as
  an OperationalError.
\<close>

fun high_bit :: "char \<Rightarrow> bool" where
  "high_bit (Char b0 b1 b2 b3 b4 b5 b6 b7) = b7"

definition identifier_start :: "char \<Rightarrow> bool" where
  "identifier_start c =
     (c \<in> set ''abcdefghijklmnopqrstuvwxyzABCDEFGHIJKLMNOPQRSTUVWXYZ_'' \<or> high_bit c)"

definition identifier_char :: "char \<Rightarrow> bool" where
  "identifier_char c = (identifier_start c \<or> c \<in> set ''0123456789$'')"

definition bare :: "string list \<Rightarrow> string \<Rightarrow> bool" where
  "bare reserved n =
     (case n of
        [] \<Rightarrow> False
      | c # cs \<Rightarrow>
          identifier_start c \<and> list_all identifier_char cs \<and> lower n \<notin> set reserved)"

fun part_as_meant :: "string list \<Rightarrow> query_part \<Rightarrow> bool" where
  "part_as_meant reserved (Case_typeof_ne_null_else_as tested literal passed alias) =
     (bare reserved tested \<and> bare reserved passed \<and> bare reserved alias
      \<and> CHR 0x27 \<notin> set literal)"

fun eval_part :: "(string \<rightharpoonup> sqlite_value) \<Rightarrow> query_part \<Rightarrow> error + (string \<times> sqlite_value)" where
  "eval_part row (Case_typeof_ne_null_else_as tested literal passed alias) =
     (case (row tested, row passed) of
        (Some v, Some w) \<Rightarrow> Inr (alias, if typeof v \<noteq> literal then SqlNull else w)
      | _ \<Rightarrow> Inl OperationalError)"

text \<open>
  \<^verbatim>\<open>LIMIT n OFFSET m\<close>: a negative \<open>n\<close> means no limit and a negative \<open>m\<close> means
  zero.  The numbers are pasted as decimal text; one that is not a 64-bit
  integer is read as a real, which the engine refuses as a limit or offset
  (datatype mismatch, an IntegrityError).
\<close>

definition int64 :: "int \<Rightarrow> bool" where
  "int64 n = (- (2 ^ 63) \<le> n \<and> n < 2 ^ 63)"

definition limit_offset :: "int \<Rightarrow> int \<Rightarrow> 'a list \<Rightarrow> 'a list" where
  "limit_offset chunk_size offset rs =
     (let skipped = drop (nat offset) rs
      in if chunk_size < 0 then skipped else take (nat chunk_size) skipped)"

definition select_parts ::
  "string list \<Rightarrow> query_part list \<Rightarrow> string \<Rightarrow> sqlite_table \<Rightarrow> int \<Rightarrow> int
     \<Rightarrow> error + (string \<times> sqlite_value) list list"
where
  "select_parts reserved parts table_name t chunk_size offset =
     (if parts \<noteq> [] \<and> list_all (part_as_meant reserved) parts \<and> bare reserved table_name
      then
        if int64 chunk_size \<and> int64 offset
        then map_result
               (\<lambda>r. map_result (eval_part (map_of (zip (map fst (column_info t)) r))) parts)
               (limit_offset chunk_size offset (table_rows t))
        else Inl IntegrityError
      else Inl OperationalError)"

text \<open>
  \<^verbatim>\<open>_sqlite_mixed_type_query_to_parquet\<close>.  Each result row is the dictionary of
  column name and value, kept as the list of pairs in column order; the file
  written at \<^verbatim>\<open>result_filepath\<close> holds the table of these rows, and writing it
  needs its directory, one of \<open>directories\<close> (or the current one).  A table the
  database does not have has no column information, and the query built from
  no parts is not valid.
\<close>

definition sqlite_mixed_type_query_to_parquet ::
  "string list \<Rightarrow> database \<Rightarrow> string \<Rightarrow> int \<Rightarrow> int \<Rightarrow> path \<Rightarrow> path set
     \<Rightarrow> (path \<rightharpoonup> (string \<times> sqlite_value) list list)
     \<Rightarrow> error + ((path \<rightharpoonup> (string \<times> sqlite_value) list list) \<times> path)"
where
  "sqlite_mixed_type_query_to_parquet reserved db table_name chunk_size offset result_filepath
       directories written =
     (case db table_name of
        None \<Rightarrow> Inl OperationalError
      | Some t \<Rightarrow>
          (case select_parts reserved (query_parts (column_info t)) table_name t
                  chunk_size offset of
             Inl e \<Rightarrow> Inl e
           | Inr results \<Rightarrow>
               if parent result_filepath = [] \<or> parent result_filepath \<in> directories
               then Inr (written(result_filepath \<mapsto> results), result_filepath)
               else Inl FileNotFoundError))"

section \<open>Words of the specification\<close>

text \<open>
  The files of a listing that are eligible for a target set: regular files whose
  extension-stripped, lowercased stem is in the set, in traversal order.
\<close>

definition eligible :: "string list \<Rightarrow> (path \<times> bool) list \<Rightarrow> path list" where
  "eligible ts entries =
     map fst (filter (\<lambda>(file, is_file). is_file \<and> lower (stem file) \<in> set ts) entries)"



section \<open>Evaluation on concrete inputs\<close>

lemmas path_simps = name_def parent_def stem_def suffix_def joinpath_def Let_def
lemmas string_simps = lower_def lower_char_def

lemmas concat_simps =
  concat_record_group_def concatted_destination_def concatted_directory_def
  concatted_filename_def unlink_if_exists_def open_writer_def close_writer_def
  is_dir_def no_rows_def read_table_def read_table_columns_def write_table_def
  append_rows_def schema_def column_names_def unlink_def
  subscript_table_def subscript_destination_path_def concat_tables_def

lemmas write_simps =
  to_parquet_def to_parquet_group_def read_files_def read_csv_def write_parquet_def
  mkdir_def destination_filename_def

section \<open>Properties of the FileGrouper\<close>

lemma collect_records_Some:
  "collect_records (Some ts) entries acc = Inr (acc @ map new_record (eligible ts entries))"
proof (induction entries arbitrary: acc)
  case Nil
  show ?case by (simp add: eligible_def)
next
  case (Cons e entries)
  obtain f b where e: "e = (f, b)" by (cases e)
  show ?case
    using Cons.IH by (simp add: e eligible_def)
qed


lemma get_source_filepaths_Some:
  "get_source_filepaths entries (Some ts) =
     (if eligible ts entries = [] then Inl NoInputError
      else Inr (group_records (map new_record (eligible ts entries))))"
  by (simp add: get_source_filepaths_def collect_records_Some)

lemma source_path_new_record: "source_path (new_record f) = f"
  by (simp add: new_record_def)

lemma group_records_keys:
  "map fst (group_records rs) = remdups (map (\<lambda>r. name (source_path r)) rs)"
  by (simp add: group_records_def comp_def)

lemma group_records_lookup:
  "k \<in> set (map (\<lambda>r. name (source_path r)) rs) \<Longrightarrow>
   map_of (group_records rs) k = Some (filter (\<lambda>r. name (source_path r) = k) rs)"
  unfolding group_records_def
  by (induction "remdups (map (\<lambda>r. name (source_path r)) rs)") (auto simp: map_of_map_restrict)

lemma group_records_members:
  "\<Union> (set ` snd ` set (group_records rs)) = set rs"
  by (auto simp: group_records_def)


lemma set_eligible:
  "set (eligible ts entries) = {f. (f, True) \<in> set entries \<and> lower (stem f) \<in> set ts}"
  by (force simp: eligible_def)


text \<open>
  Claim C4, as the code has it.  With a target list, \<^verbatim>\<open>get_source_filepaths\<close> fails
  with the no-input error exactly when no entry is eligible, and otherwise the
  records it groups are exactly those of the regular files whose
  extension-stripped, lowercased stem is in the list.  When the caller leaves
  the targets unset, \<^verbatim>\<open>gather_records\<close> and \<^verbatim>\<open>convert\<close> run with the default
  targets.
\<close>

theorem get_source_filepaths_eligibility:
  "(get_source_filepaths entries (Some ts) = Inl NoInputError \<longleftrightarrow> eligible ts entries = [])
   \<and> (eligible ts entries \<noteq> [] \<longrightarrow>
        (\<exists>g. get_source_filepaths entries (Some ts) = Inr g
           \<and> (\<forall>r. r \<in> \<Union> (set ` snd ` set g) \<longleftrightarrow>
                  (\<exists>f. r = new_record f \<and> (f, True) \<in> set entries
                        \<and> lower (stem f) \<in> set ts))))
   \<and> gather_records entries source_datatype None
       = gather_records entries source_datatype (Some DEFAULT_TARGETS)
   \<and> convert st entries dest_path dest_datatype source_datatype None do_concat
       = convert st entries dest_path dest_datatype source_datatype (Some DEFAULT_TARGETS) do_concat"
proof -
  have members: "r \<in> \<Union> (set ` snd ` set (group_records (map new_record (eligible ts entries))))
      \<longleftrightarrow> (\<exists>f. r = new_record f \<and> (f, True) \<in> set entries \<and> lower (stem f) \<in> set ts)" for r
    unfolding group_records_members by (auto simp: set_eligible)
  show ?thesis
    using members by (simp add: get_source_filepaths_Some gather_records_def convert_def)
qed

theorem get_source_filepaths_eligibility_witness:
  "eligible [''image'']
     [([''plate''], False), ([''plate'', ''Image.csv''], True), ([''plate'', ''notes.csv''], True)] \<noteq> []
   \<and> (\<exists>g. get_source_filepaths
            [([''plate''], False), ([''plate'', ''Image.csv''], True), ([''plate'', ''notes.csv''], True)]
            (Some [''image'']) = Inr g
        \<and> new_record [''plate'', ''Image.csv''] \<in> \<Union> (set ` snd ` set g)
        \<and> new_record [''plate'', ''notes.csv''] \<notin> \<Union> (set ` snd ` set g))"
proof -
  let ?E = "[([''plate''], False), ([''plate'', ''Image.csv''], True), ([''plate'', ''notes.csv''], True)]"
  have e: "eligible [''image''] ?E = [[''plate'', ''Image.csv'']]"
    by (simp add: eligible_def path_simps string_simps)
  have yes: "lower (stem [''plate'', ''Image.csv'']) \<in> set [''image'']"
    by (simp add: path_simps string_simps)
  have no: "lower (stem [''plate'', ''notes.csv'']) \<notin> set [''image'']"
    by (simp add: path_simps string_simps)
  note inst = get_source_filepaths_eligibility [of ?E "[''image'']", THEN conjunct2, THEN conjunct1]
  from inst e
  obtain g where g: "get_source_filepaths ?E (Some [''image'']) = Inr g"
    and m: "\<forall>r. r \<in> \<Union> (set ` snd ` set g) \<longleftrightarrow>
              (\<exists>f. r = new_record f \<and> (f, True) \<in> set ?E \<and> lower (stem f) \<in> set [''image''])"
    by auto
  have "new_record [''plate'', ''Image.csv''] \<in> \<Union> (set ` snd ` set g)"
    using m yes by auto
  moreover have "new_record [''plate'', ''notes.csv''] \<notin> \<Union> (set ` snd ` set g)"
    using m no by (auto simp: new_record_def)
  ultimately show ?thesis using e g by simp
qed

text \<open>
  With the targets unset, a file is not accepted whatever its name: called with
  \<^verbatim>\<open>None\<close>, \<^verbatim>\<open>get_source_filepaths\<close> raises at the first regular file, and
  \<^verbatim>\<open>gather_records\<close> keeps only the files named after a default target.
\<close>

theorem unset_targets_counterexample:
  "get_source_filepaths
     [([''plate'', ''image.csv''], True), ([''plate'', ''notes.csv''], True)] None = Inl TypeError
   \<and> gather_records
     [([''plate'', ''image.csv''], True), ([''plate'', ''notes.csv''], True)] None None
     = Inr [(''image.csv'', [new_record [''plate'', ''image.csv'']])]"
  by (simp add: get_source_filepaths_def gather_records_def group_records_def
        infer_source_datatype_def filter_source_filepaths_def suffixes_def suffix_of_def
        DEFAULT_TARGETS_def new_record_def path_simps string_simps)

text \<open>
  Claim C6.  Whenever some entry is eligible, grouping returns a mapping whose
  keys are the distinct file names of the eligible files, one group per name,
  and the group of a name holds exactly the records of the eligible files with
  that name, in traversal order, whatever directories they are in.
\<close>

theorem get_source_filepaths_groups:
  assumes "eligible ts entries \<noteq> []"
  shows "\<exists>g. get_source_filepaths entries (Some ts) = Inr g
     \<and> distinct (map fst g)
     \<and> set (map fst g) = name ` set (eligible ts entries)
     \<and> (\<forall>k \<in> name ` set (eligible ts entries).
          map_of g k = Some (map new_record (filter (\<lambda>f. name f = k) (eligible ts entries)))
          \<and> length (the (map_of g k)) = length (filter (\<lambda>f. name f = k) (eligible ts entries)))"
proof -
  define g where "g = group_records (map new_record (eligible ts entries))"
  from assms have run: "get_source_filepaths entries (Some ts) = Inr g"
    by (simp add: get_source_filepaths_Some g_def)
  have keys: "map fst g = remdups (map name (eligible ts entries))"
    by (simp add: g_def group_records_keys comp_def source_path_new_record)
  have look: "map_of g k = Some (map new_record (filter (\<lambda>f. name f = k) (eligible ts entries)))"
    if "k \<in> name ` set (eligible ts entries)" for k
  proof -
    from that have "k \<in> set (map (\<lambda>r. name (source_path r)) (map new_record (eligible ts entries)))"
      by (auto simp: source_path_new_record)
    then show ?thesis
      unfolding g_def
      by (simp add: group_records_lookup filter_map comp_def source_path_new_record)
  qed
  have d: "distinct (map fst g)" and s: "set (map fst g) = name ` set (eligible ts entries)"
    using keys by simp_all
  have each: "\<forall>k \<in> name ` set (eligible ts entries).
          map_of g k = Some (map new_record (filter (\<lambda>f. name f = k) (eligible ts entries)))
          \<and> length (the (map_of g k)) = length (filter (\<lambda>f. name f = k) (eligible ts entries))"
    using look by simp
  from run d s each show ?thesis by blast
qed

lemma eligible_example:
  "eligible DEFAULT_TARGETS
     [([''data'', ''plate1''], False),
      ([''data'', ''plate1'', ''Image.csv''], True),
      ([''data'', ''plate1'', ''notes.txt''], True),
      ([''data'', ''batch'', ''plate2'', ''Image.csv''], True),
      ([''data'', ''batch'', ''plate2'', ''cells.csv''], True)]
   = [[''data'', ''plate1'', ''Image.csv''],
      [''data'', ''batch'', ''plate2'', ''Image.csv''],
      [''data'', ''batch'', ''plate2'', ''cells.csv'']]"
  by (simp add: eligible_def DEFAULT_TARGETS_def path_simps string_simps)

theorem get_source_filepaths_groups_witness:
  "eligible DEFAULT_TARGETS
     [([''data'', ''plate1''], False),
      ([''data'', ''plate1'', ''Image.csv''], True),
      ([''data'', ''plate1'', ''notes.txt''], True),
      ([''data'', ''batch'', ''plate2'', ''Image.csv''], True),
      ([''data'', ''batch'', ''plate2'', ''cells.csv''], True)] \<noteq> []
   \<and> (\<exists>g. get_source_filepaths
          [([''data'', ''plate1''], False),
           ([''data'', ''plate1'', ''Image.csv''], True),
           ([''data'', ''plate1'', ''notes.txt''], True),
           ([''data'', ''batch'', ''plate2'', ''Image.csv''], True),
           ([''data'', ''batch'', ''plate2'', ''cells.csv''], True)]
          (Some DEFAULT_TARGETS) = Inr g
        \<and> set (map fst g) = {''Image.csv'', ''cells.csv''}
        \<and> map_of g ''Image.csv''
            = Some [new_record [''data'', ''plate1'', ''Image.csv''],
                    new_record [''data'', ''batch'', ''plate2'', ''Image.csv'']])"
proof -
  let ?E = "[([''data'', ''plate1''], False),
      ([''data'', ''plate1'', ''Image.csv''], True),
      ([''data'', ''plate1'', ''notes.txt''], True),
      ([''data'', ''batch'', ''plate2'', ''Image.csv''], True),
      ([''data'', ''batch'', ''plate2'', ''cells.csv''], True)]"
  have ne: "eligible DEFAULT_TARGETS ?E \<noteq> []"
    by (simp add: eligible_example)
  have names: "name ` set (eligible DEFAULT_TARGETS ?E) = {''Image.csv'', ''cells.csv''}"
    by (simp add: eligible_example path_simps)
  from get_source_filepaths_groups [OF ne] obtain g where
    all: "get_source_filepaths ?E (Some DEFAULT_TARGETS) = Inr g
     \<and> distinct (map fst g)
     \<and> set (map fst g) = name ` set (eligible DEFAULT_TARGETS ?E)
     \<and> (\<forall>k \<in> name ` set (eligible DEFAULT_TARGETS ?E).
          map_of g k = Some (map new_record
                               (filter (\<lambda>f. name f = k) (eligible DEFAULT_TARGETS ?E)))
          \<and> length (the (map_of g k))
              = length (filter (\<lambda>f. name f = k) (eligible DEFAULT_TARGETS ?E)))"
    by (rule exE)
  note run = all [THEN conjunct1]
  note keys = all [THEN conjunct2, THEN conjunct2, THEN conjunct1]
  note look = all [THEN conjunct2, THEN conjunct2, THEN conjunct2]
  have mem: "''Image.csv'' \<in> name ` set (eligible DEFAULT_TARGETS ?E)"
    unfolding names by simp
  note at = bspec [OF look mem]
  from at have "map_of g ''Image.csv''
      = Some (map new_record
                (filter (\<lambda>f. name f = ''Image.csv'') (eligible DEFAULT_TARGETS ?E)))"
    by (rule conjunct1)
  then have l: "map_of g ''Image.csv''
            = Some [new_record [''data'', ''plate1'', ''Image.csv''],
                    new_record [''data'', ''batch'', ''plate2'', ''Image.csv'']]"
    by (simp add: eligible_example path_simps)
  from keys names have k: "set (map fst g) = {''Image.csv'', ''cells.csv''}" by simp
  have "\<exists>g. get_source_filepaths ?E (Some DEFAULT_TARGETS) = Inr g
        \<and> set (map fst g) = {''Image.csv'', ''cells.csv''}
        \<and> map_of g ''Image.csv''
            = Some [new_record [''data'', ''plate1'', ''Image.csv''],
                    new_record [''data'', ''batch'', ''plate2'', ''Image.csv'']]"
    by (rule exI [of _ g], rule conjI [OF run conjI [OF k l]])
  with ne show ?thesis by (rule conjI)
qed

section \<open>Properties of the DatatypeInferencer\<close>





section \<open>Properties of the ColumnarWriter\<close>

lemma joinpath_parquet:
  "joinpath d (destination_filename p u) = d @ [destination_filename p u]"
  by (simp add: joinpath_def destination_filename_def)

lemma write_parquet_Inr:
  assumes "write_parquet st r dest u = Inr (st', r')"
  shows "r' = r\<lparr>table := None,
                 destination_path := Some (dest @ [destination_filename (source_path r) u])\<rparr>"
  using assms
  by (cases "table r") (auto simp: write_parquet_def joinpath_parquet Let_def)

lemma write_parquet_total:
  "table r \<noteq> None \<Longrightarrow> \<exists>st' r'. write_parquet st r dest u = Inr (st', r')"
  by (cases "table r") (simp_all add: write_parquet_def Let_def)

lemma write_parquet_map_result:
  "write_parquet_map st rs dest u = Inr (st', ws) \<Longrightarrow>
   ws = map (\<lambda>r. r\<lparr>table := None,
                    destination_path := Some (dest @ [destination_filename (source_path r) u])\<rparr>) rs"
proof (induction rs arbitrary: st ws)
  case Nil
  then show ?case by simp
next
  case (Cons r rs)
  from Cons.prems obtain st1 r1 where w: "write_parquet st r dest u = Inr (st1, r1)"
    by (cases "write_parquet st r dest u") auto
  from Cons.prems w obtain ws1 where
    m: "write_parquet_map st1 rs dest u = Inr (st', ws1)" and ws: "ws = r1 # ws1"
    by (cases "write_parquet_map st1 rs dest u") auto
  from Cons.IH [OF m] write_parquet_Inr [OF w] ws show ?case by simp
qed

lemma write_parquet_map_total:
  "\<forall>r \<in> set rs. table r \<noteq> None \<Longrightarrow> \<exists>st' ws. write_parquet_map st rs dest u = Inr (st', ws)"
proof (induction rs arbitrary: st)
  case Nil
  then show ?case by simp
next
  case (Cons r rs)
  from Cons.prems have "table r \<noteq> None" by simp
  from write_parquet_total [OF this] obtain st1 r1 where
    w: "write_parquet st r dest u = Inr (st1, r1)" by blast
  from Cons.IH [of st1] Cons.prems obtain st' ws where
    "write_parquet_map st1 rs dest u = Inr (st', ws)" by auto
  with w show ?case by simp
qed

lemma map_result_read_csv:
  "map_result (read_csv st) rs = Inr rs' \<Longrightarrow>
   map source_path rs' = map source_path rs \<and> (\<forall>r \<in> set rs'. table r \<noteq> None)"
proof (induction rs arbitrary: rs')
  case Nil
  then show ?case by simp
next
  case (Cons r rs)
  then show ?case
    by (auto simp: read_csv_def split: option.splits sum.splits disk_file.splits)
qed

lemma map_result_read_csv_total:
  "\<forall>r \<in> set rs. \<exists>t. files st (source_path r) = Some (Csv t) \<Longrightarrow>
   \<exists>rs'. map_result (read_csv st) rs = Inr rs'"
proof (induction rs)
  case Nil
  then show ?case by simp
next
  case (Cons r rs)
  then show ?case by (auto simp: read_csv_def)
qed

lemma filenames_differ:
  "n @ ''.'' @ s @ ''.parquet'' \<noteq> s @ ''.parquet''"
proof
  assume "n @ ''.'' @ s @ ''.parquet'' = s @ ''.parquet''"
  then have "length (n @ ''.'' @ s @ ''.parquet'') = length (s @ ''.parquet'')" by simp
  then show False by simp
qed

lemma to_parquet_group_Inr:
  assumes "to_parquet_group st record_group_name record_group dest_path = Inr (st', written)"
  shows "\<exists>rg'. map source_path rg' = map source_path record_group
             \<and> write_parquet_map st rg' dest_path (2 \<le> length rg') = Inr (st', written)"
proof (cases "length (filter (\<lambda>r. table r \<noteq> None) record_group) \<noteq> length record_group")
  case False
  with assms show ?thesis by (auto simp: to_parquet_group_def)
next
  case True
  with assms obtain rg' where
    rd: "read_files st record_group_name record_group = Inr rg'"
    and w: "write_parquet_map st rg' dest_path (2 \<le> length rg') = Inr (st', written)"
    by (cases "read_files st record_group_name record_group") (simp_all add: to_parquet_group_def)
  from rd have "map_result (read_csv st) record_group = Inr rg'"
    by (simp add: read_files_def split: if_splits)
  from map_result_read_csv [OF this] w show ?thesis by blast
qed

lemma filter_not_all:
  assumes "\<not> (\<forall>r \<in> set rs. P r)"
  shows "length (filter P rs) \<noteq> length rs"
proof -
  from assms obtain r where "r \<in> set rs" "\<not> P r" by blast
  then have "length (filter P rs) < length rs" by (rule length_filter_less)
  then show ?thesis by simp
qed

text \<open>
  Claim C8.  Writing a group returns whenever every member holds a table, or
  the group is a delimited one whose files parse.  Whenever it returns, each
  member's destination is in the destination directory, and its file name is
  \<^verbatim>\<open><parent-dir>.<stem>.parquet\<close> exactly when the group has two or more members
  and \<^verbatim>\<open><stem>.parquet\<close> exactly when it has one.
\<close>

theorem to_parquet_group_destinations:
  "(((\<forall>r \<in> set record_group. table r \<noteq> None)
      \<or> (suffix [record_group_name] = ''.csv''
          \<and> (\<forall>r \<in> set record_group. \<exists>t. files st (source_path r) = Some (Csv t))))
     \<longrightarrow> (\<exists>st' written. to_parquet_group st record_group_name record_group dest_path
                          = Inr (st', written)))
   \<and> (\<forall>st' written.
        to_parquet_group st record_group_name record_group dest_path = Inr (st', written) \<longrightarrow>
        length written = length record_group
        \<and> (\<forall>i < length record_group.
             source_path (written ! i) = source_path (record_group ! i)
             \<and> (\<exists>filename.
                  destination_path (written ! i) = Some (dest_path @ [filename])
                  \<and> (filename = name (parent (source_path (record_group ! i))) @ ''.''
                                  @ stem (source_path (record_group ! i)) @ ''.parquet''
                       \<longleftrightarrow> 2 \<le> length record_group)
                  \<and> (filename = stem (source_path (record_group ! i)) @ ''.parquet''
                       \<longleftrightarrow> length record_group = 1))))"
proof -
  have total: "\<exists>st' written. to_parquet_group st record_group_name record_group dest_path
                  = Inr (st', written)"
    if h: "(\<forall>r \<in> set record_group. table r \<noteq> None)
      \<or> (suffix [record_group_name] = ''.csv''
          \<and> (\<forall>r \<in> set record_group. \<exists>t. files st (source_path r) = Some (Csv t)))"
  proof (cases "\<forall>r \<in> set record_group. table r \<noteq> None")
    case True
    then have "length (filter (\<lambda>r. table r \<noteq> None) record_group) = length record_group"
      by simp
    with write_parquet_map_total [OF True] show ?thesis
      by (simp add: to_parquet_group_def)
  next
    case False
    with h have csv: "suffix [record_group_name] = ''.csv''"
      and fs: "\<forall>r \<in> set record_group. \<exists>t. files st (source_path r) = Some (Csv t)"
      by blast+
    note ne = filter_not_all [OF False]
    from map_result_read_csv_total [OF fs] obtain rs' where
      rs': "map_result (read_csv st) record_group = Inr rs'" by blast
    from map_result_read_csv [OF rs'] have "\<forall>r \<in> set rs'. table r \<noteq> None" by simp
    from write_parquet_map_total [OF this] obtain st' ws where
      "write_parquet_map st rs' dest_path (2 \<le> length rs') = Inr (st', ws)" by blast
    with rs' csv ne show ?thesis
      by (simp add: to_parquet_group_def read_files_def)
  qed
  have names: "length written = length record_group
        \<and> (\<forall>i < length record_group.
             source_path (written ! i) = source_path (record_group ! i)
             \<and> (\<exists>filename.
                  destination_path (written ! i) = Some (dest_path @ [filename])
                  \<and> (filename = name (parent (source_path (record_group ! i))) @ ''.''
                                  @ stem (source_path (record_group ! i)) @ ''.parquet''
                       \<longleftrightarrow> 2 \<le> length record_group)
                  \<and> (filename = stem (source_path (record_group ! i)) @ ''.parquet''
                       \<longleftrightarrow> length record_group = 1)))"
    if r: "to_parquet_group st record_group_name record_group dest_path = Inr (st', written)"
    for st' written
  proof -
    from to_parquet_group_Inr [OF r] obtain rg' where
      rg': "map source_path rg' = map source_path record_group"
      and w: "write_parquet_map st rg' dest_path (2 \<le> length rg') = Inr (st', written)"
      by blast
    from rg' have len: "length rg' = length record_group"
      by (rule map_eq_imp_length_eq)
    note res = write_parquet_map_result [OF w]
    have l: "length written = length record_group" using res len by simp
    have each: "source_path (written ! i) = source_path (record_group ! i)
             \<and> (\<exists>filename.
                  destination_path (written ! i) = Some (dest_path @ [filename])
                  \<and> (filename = name (parent (source_path (record_group ! i))) @ ''.''
                                  @ stem (source_path (record_group ! i)) @ ''.parquet''
                       \<longleftrightarrow> 2 \<le> length record_group)
                  \<and> (filename = stem (source_path (record_group ! i)) @ ''.parquet''
                       \<longleftrightarrow> length record_group = 1))"
      if i: "i < length record_group" for i
    proof -
      let ?p = "source_path (record_group ! i)"
      from i len have i': "i < length rg'" by simp
      have "source_path (rg' ! i) = map source_path rg' ! i"
        using i' by simp
      also have "\<dots> = ?p" using i by (simp add: rg')
      finally have sp: "source_path (rg' ! i) = ?p" .
      have wi: "written ! i = (rg' ! i)\<lparr>table := None,
                    destination_path := Some (dest_path @
                       [destination_filename (source_path (rg' ! i)) (2 \<le> length rg')])\<rparr>"
        unfolding res using i' by simp
      have s1: "source_path (written ! i) = ?p"
        by (simp add: wi sp)
      have d: "destination_path (written ! i)
            = Some (dest_path @ [destination_filename ?p (2 \<le> length record_group)])"
        by (simp add: wi sp len)
      note diff = filenames_differ [of "name (parent ?p)" "stem ?p"]
      have s2: "\<exists>filename.
          destination_path (written ! i) = Some (dest_path @ [filename])
          \<and> (filename = name (parent ?p) @ ''.'' @ stem ?p @ ''.parquet''
               \<longleftrightarrow> 2 \<le> length record_group)
          \<and> (filename = stem ?p @ ''.parquet'' \<longleftrightarrow> length record_group = 1)"
      proof (cases "2 \<le> length record_group")
        case True
        then have "destination_filename ?p (2 \<le> length record_group)
                    = name (parent ?p) @ ''.'' @ stem ?p @ ''.parquet''"
          by (simp add: destination_filename_def)
        with d True diff show ?thesis by auto
      next
        case False
        with i have one: "length record_group = 1" by simp
        from False have "destination_filename ?p (2 \<le> length record_group)
                    = stem ?p @ ''.parquet''"
          by (simp add: destination_filename_def)
        with d one diff [symmetric] show ?thesis by auto
      qed
      from s1 s2 show ?thesis by blast
    qed
    from l each show ?thesis by blast
  qed
  from total names show ?thesis by blast
qed

theorem to_parquet_group_destinations_witness:
  "table \<lparr>source_path = [''data'', ''plate1'', ''image.csv''],
           table = Some [((''ImageNumber'', ''int64''), [AInt 1])], destination_path = None\<rparr>
      \<noteq> None
   \<and> table \<lparr>source_path = [''data'', ''plate2'', ''image.csv''],
           table = Some [((''ImageNumber'', ''int64''), [AInt 2])], destination_path = None\<rparr>
      \<noteq> None
   \<and> (\<exists>st' written.
        to_parquet_group \<lparr>files = Map.empty, dirs = {}, trace = []\<rparr> ''image.csv''
          [\<lparr>source_path = [''data'', ''plate1'', ''image.csv''],
             table = Some [((''ImageNumber'', ''int64''), [AInt 1])], destination_path = None\<rparr>,
           \<lparr>source_path = [''data'', ''plate2'', ''image.csv''],
             table = Some [((''ImageNumber'', ''int64''), [AInt 2])], destination_path = None\<rparr>]
          [''out''] = Inr (st', written)
        \<and> map destination_path written
            = [Some [''out'', ''plate1.image.parquet''], Some [''out'', ''plate2.image.parquet'']])
   \<and> (\<exists>st' written.
        to_parquet_group \<lparr>files = Map.empty, dirs = {}, trace = []\<rparr> ''cells.csv''
          [\<lparr>source_path = [''data'', ''plate1'', ''cells.csv''],
             table = Some [((''ImageNumber'', ''int64''), [AInt 1])], destination_path = None\<rparr>]
          [''out''] = Inr (st', written)
        \<and> map destination_path written = [Some [''out'', ''cells.parquet'']])"
proof -
  let ?st = "\<lparr>files = Map.empty, dirs = {}, trace = []\<rparr>"
  let ?r1 = "\<lparr>source_path = [''data'', ''plate1'', ''image.csv''],
                   table = Some [((''ImageNumber'', ''int64''), [AInt 1])], destination_path = None\<rparr>"
  let ?r2 = "\<lparr>source_path = [''data'', ''plate2'', ''image.csv''],
                   table = Some [((''ImageNumber'', ''int64''), [AInt 2])], destination_path = None\<rparr>"
  let ?r3 = "\<lparr>source_path = [''data'', ''plate1'', ''cells.csv''],
             table = Some [((''ImageNumber'', ''int64''), [AInt 1])], destination_path = None\<rparr>"
  have t2: "\<forall>r \<in> set [?r1, ?r2]. table r \<noteq> None" by simp
  have t1: "\<forall>r \<in> set [?r3]. table r \<noteq> None" by simp
  note two = to_parquet_group_destinations [of "[?r1, ?r2]" "''image.csv''" ?st "[''out'']"]
  note one = to_parquet_group_destinations [of "[?r3]" "''cells.csv''" ?st "[''out'']"]
  from two t2 obtain st2 w2 where
    w2: "to_parquet_group ?st ''image.csv'' [?r1, ?r2] [''out''] = Inr (st2, w2)" by blast
  from one t1 obtain st1 w1 where
    w1: "to_parquet_group ?st ''cells.csv'' [?r3] [''out''] = Inr (st1, w1)" by blast
  from two w2 have l2: "length w2 = 2"
    and d2: "\<forall>i < 2. \<exists>filename. destination_path (w2 ! i) = Some ([''out''] @ [filename])
              \<and> (filename = name (parent (source_path ([?r1, ?r2] ! i))) @ ''.''
                                  @ stem (source_path ([?r1, ?r2] ! i)) @ ''.parquet''
                       \<longleftrightarrow> 2 \<le> length [?r1, ?r2])"
    by auto
  from d2 have "destination_path (w2 ! 0) = Some [''out'', ''plate1.image.parquet'']"
    and "destination_path (w2 ! 1) = Some [''out'', ''plate2.image.parquet'']"
    by (auto simp: path_simps)
  with l2 have m2: "map destination_path w2
            = [Some [''out'', ''plate1.image.parquet''], Some [''out'', ''plate2.image.parquet'']]"
    by (cases w2; cases "tl w2") auto
  from one w1 have l1: "length w1 = 1"
    and d1: "\<forall>i < 1. \<exists>filename. destination_path (w1 ! i) = Some ([''out''] @ [filename])
              \<and> (filename = stem (source_path ([?r3] ! i)) @ ''.parquet''
                       \<longleftrightarrow> length [?r3] = 1)"
    by auto
  from d1 have "destination_path (w1 ! 0) = Some [''out'', ''cells.parquet'']"
    by (auto simp: path_simps)
  with l1 have m1: "map destination_path w1 = [Some [''out'', ''cells.parquet'']]"
    by (cases w1) auto
  have e2: "\<exists>st' written.
        to_parquet_group ?st ''image.csv'' [?r1, ?r2] [''out''] = Inr (st', written)
        \<and> map destination_path written
            = [Some [''out'', ''plate1.image.parquet''], Some [''out'', ''plate2.image.parquet'']]"
    by (rule exI [of _ st2], rule exI [of _ w2], rule conjI [OF w2 m2])
  have e1: "\<exists>st' written.
        to_parquet_group ?st ''cells.csv'' [?r3] [''out''] = Inr (st', written)
        \<and> map destination_path written = [Some [''out'', ''cells.parquet'']]"
    by (rule exI [of _ st1], rule exI [of _ w1], rule conjI [OF w1 m1])
  have n1: "table ?r1 \<noteq> None" and n2: "table ?r2 \<noteq> None" by simp_all
  show ?thesis by (rule conjI [OF n1 conjI [OF n2 conjI [OF e2 e1]]])
qed

text \<open>
  Claim C7 fails on the code.  Two distinct files of one group whose parent
  directories have the same name are given the same destination, and the
  second write replaces the first.
\<close>

theorem write_parquet_same_destination:
  "to_parquet_group \<lparr>files = Map.empty, dirs = {}, trace = []\<rparr> ''image.csv''
     [\<lparr>source_path = [''batch1'', ''plate'', ''image.csv''],
        table = Some [((''ImageNumber'', ''int64''), [AInt 1])], destination_path = None\<rparr>,
      \<lparr>source_path = [''batch2'', ''plate'', ''image.csv''],
        table = Some [((''ImageNumber'', ''int64''), [AInt 2])], destination_path = None\<rparr>]
     [''out'']
   = Inr (\<lparr>files = [[''out'', ''plate.image.parquet'']
                       \<mapsto> Parquet [((''ImageNumber'', ''int64''), [AInt 2])]],
            dirs = {[''out'']},
            trace = [Wrote [''out'', ''plate.image.parquet''],
                     Wrote [''out'', ''plate.image.parquet'']]\<rparr>,
          [\<lparr>source_path = [''batch1'', ''plate'', ''image.csv''], table = None,
             destination_path = Some [''out'', ''plate.image.parquet'']\<rparr>,
           \<lparr>source_path = [''batch2'', ''plate'', ''image.csv''], table = None,
             destination_path = Some [''out'', ''plate.image.parquet'']\<rparr>])"
  by (simp add: write_simps path_simps)

section \<open>Properties of the Concatenator\<close>

lemma concat_records_all_small:
  "\<forall>(key, record_group) \<in> set rs. length record_group < 2 \<Longrightarrow>
   concat_records st rs dest_path = Inr (st, rs)"
proof (induction rs)
  case Nil
  show ?case by simp
next
  case (Cons kg rs)
  obtain key record_group where kg: "kg = (key, record_group)" by (cases kg)
  from Cons.prems kg have small: "length record_group < 2"
    and rest: "\<forall>(key, record_group) \<in> set rs. length record_group < 2" by simp_all
  from Cons.IH [OF rest] small show ?case by (simp add: kg)
qed

lemma concat_records_frame:
  "concat_records st rs dest_path = Inr (st', rs') \<Longrightarrow>
   map fst rs' = map fst rs
   \<and> (\<forall>i < length rs. length (snd (rs ! i)) < 2 \<longrightarrow> rs' ! i = rs ! i)
   \<and> (\<exists>rs''. concat_records st
                 (filter (\<lambda>(key, record_group). \<not> length record_group < 2) rs) dest_path
               = Inr (st', rs''))"
proof (induction rs arbitrary: st rs')
  case Nil
  then show ?case by simp
next
  case (Cons kg rs)
  obtain key record_group where kg: "kg = (key, record_group)" by (cases kg)
  show ?case
  proof (cases "length record_group < 2")
    case True
    with Cons.prems kg obtain rest' where
      r: "concat_records st rs dest_path = Inr (st', rest')"
      and rs': "rs' = (key, record_group) # rest'"
      by (cases "concat_records st rs dest_path") auto
    note ih = Cons.IH [OF r]
    have nth: "\<forall>i < length (kg # rs). length (snd ((kg # rs) ! i)) < 2 \<longrightarrow> rs' ! i = (kg # rs) ! i"
    proof (intro allI impI)
      fix i assume "i < length (kg # rs)" "length (snd ((kg # rs) ! i)) < 2"
      with ih show "rs' ! i = (kg # rs) ! i"
        by (cases i) (simp_all add: rs' kg)
    qed
    from ih nth True show ?thesis by (simp add: rs' kg)
  next
    case False
    with Cons.prems kg obtain st1 concatted where
      c: "concat_record_group st record_group dest_path = Inr (st1, concatted)"
      by (cases "concat_record_group st record_group dest_path") auto
    with False Cons.prems kg obtain rest' where
      r: "concat_records st1 rs dest_path = Inr (st', rest')"
      and rs': "rs' = (key, concatted) # rest'"
      by (cases "concat_records st1 rs dest_path") auto
    note ih = Cons.IH [OF r]
    have nth: "\<forall>i < length (kg # rs). length (snd ((kg # rs) ! i)) < 2 \<longrightarrow> rs' ! i = (kg # rs) ! i"
    proof (intro allI impI)
      fix i assume "i < length (kg # rs)" "length (snd ((kg # rs) ! i)) < 2"
      with ih False show "rs' ! i = (kg # rs) ! i"
        by (cases i) (simp_all add: rs' kg)
    qed
    from ih obtain rs'' where
      "concat_records st1 (filter (\<lambda>(key, record_group). \<not> length record_group < 2) rs) dest_path
         = Inr (st', rs'')" by blast
    with c False have "\<exists>rs''. concat_records st
                 (filter (\<lambda>(key, record_group). \<not> length record_group < 2) (kg # rs)) dest_path
               = Inr (st', rs'')"
      by (simp add: kg)
    with ih nth show ?thesis by (simp add: rs' kg)
  qed
qed

text \<open>
  Claim C10.  A group of fewer than two records comes out of \<^verbatim>\<open>concat_records\<close>
  as it went in, and has no effect on the file system: the state after the run
  is the one reached without the small groups, and when every group is small
  the run returns the mapping and the state unchanged.
\<close>

theorem concat_records_small_groups:
  "((\<forall>(key, record_group) \<in> set rs. length record_group < 2)
      \<longrightarrow> concat_records st rs dest_path = Inr (st, rs))
   \<and> (\<forall>st' rs'. concat_records st rs dest_path = Inr (st', rs') \<longrightarrow>
        map fst rs' = map fst rs
        \<and> (\<forall>i < length rs. length (snd (rs ! i)) < 2 \<longrightarrow> rs' ! i = rs ! i)
        \<and> (\<exists>rs''. concat_records st
                 (filter (\<lambda>(key, record_group). \<not> length record_group < 2) rs) dest_path
               = Inr (st', rs'')))"
  using concat_records_all_small [of rs st dest_path] concat_records_frame [of st rs dest_path]
  by blast

theorem concat_records_small_groups_witness:
  "length [\<lparr>source_path = [''data'', ''plate1'', ''cells.csv''], table = None,
             destination_path = Some [''out'', ''cells.parquet'']\<rparr>] < 2
   \<and> concat_records
        \<lparr>files = [[''out'', ''cells.parquet'']
                     \<mapsto> Parquet [((''ObjectNumber'', ''int64''), [AInt 1])]],
         dirs = {[''out'']}, trace = []\<rparr>
        [(''cells.csv'',
          [\<lparr>source_path = [''data'', ''plate1'', ''cells.csv''], table = None,
             destination_path = Some [''out'', ''cells.parquet'']\<rparr>])]
        (Some [''out''])
      = Inr (\<lparr>files = [[''out'', ''cells.parquet'']
                     \<mapsto> Parquet [((''ObjectNumber'', ''int64''), [AInt 1])]],
         dirs = {[''out'']}, trace = []\<rparr>,
             [(''cells.csv'',
               [\<lparr>source_path = [''data'', ''plate1'', ''cells.csv''], table = None,
                  destination_path = Some [''out'', ''cells.parquet'']\<rparr>])])
   \<and> (\<exists>st' rs'.
        concat_records
          \<lparr>files = [[''out'', ''cells.parquet'']
                       \<mapsto> Parquet [((''ObjectNumber'', ''int64''), [AInt 1])],
                    [''out'', ''plate1.image.parquet'']
                       \<mapsto> Parquet [((''ImageNumber'', ''int64''), [AInt 1])],
                    [''out'', ''plate2.image.parquet'']
                       \<mapsto> Parquet [((''ImageNumber'', ''int64''), [AInt 2])]],
         dirs = {[''out'']}, trace = []\<rparr>
          [(''cells.csv'',
            [\<lparr>source_path = [''data'', ''plate1'', ''cells.csv''], table = None,
               destination_path = Some [''out'', ''cells.parquet'']\<rparr>]),
           (''image.csv'',
            [\<lparr>source_path = [''data'', ''plate1'', ''image.csv''], table = None,
               destination_path = Some [''out'', ''plate1.image.parquet'']\<rparr>,
             \<lparr>source_path = [''data'', ''plate2'', ''image.csv''], table = None,
               destination_path = Some [''out'', ''plate2.image.parquet'']\<rparr>])]
          (Some [''out'']) = Inr (st', rs')
        \<and> rs' ! 0 = (''cells.csv'',
            [\<lparr>source_path = [''data'', ''plate1'', ''cells.csv''], table = None,
               destination_path = Some [''out'', ''cells.parquet'']\<rparr>]))"
proof -
  let ?c = "\<lparr>source_path = [''data'', ''plate1'', ''cells.csv''], table = None,
           destination_path = Some [''out'', ''cells.parquet'']\<rparr>"
  let ?i1 = "\<lparr>source_path = [''data'', ''plate1'', ''image.csv''], table = None,
               destination_path = Some [''out'', ''plate1.image.parquet'']\<rparr>"
  let ?i2 = "\<lparr>source_path = [''data'', ''plate2'', ''image.csv''], table = None,
               destination_path = Some [''out'', ''plate2.image.parquet'']\<rparr>"
  let ?s1 = "\<lparr>files = [[''out'', ''cells.parquet'']
                     \<mapsto> Parquet [((''ObjectNumber'', ''int64''), [AInt 1])]],
         dirs = {[''out'']}, trace = []\<rparr>"
  let ?s2 = "\<lparr>files = [[''out'', ''cells.parquet'']
                       \<mapsto> Parquet [((''ObjectNumber'', ''int64''), [AInt 1])],
                    [''out'', ''plate1.image.parquet'']
                       \<mapsto> Parquet [((''ImageNumber'', ''int64''), [AInt 1])],
                    [''out'', ''plate2.image.parquet'']
                       \<mapsto> Parquet [((''ImageNumber'', ''int64''), [AInt 2])]],
         dirs = {[''out'']}, trace = []\<rparr>"
  let ?rs1 = "[(''cells.csv'', [?c])]"
  let ?rs2 = "[(''cells.csv'', [?c]), (''image.csv'', [?i1, ?i2])]"
  have small: "\<forall>(key, record_group) \<in> set ?rs1. length record_group < 2" by simp
  from concat_records_small_groups [of ?rs1 ?s1 "Some [''out'']"] small
  have a: "concat_records ?s1 ?rs1 (Some [''out'']) = Inr (?s1, ?rs1)" by blast
  have "\<exists>st' rs'. concat_records ?s2 ?rs2 (Some [''out'']) = Inr (st', rs')"
    by (simp add: concat_simps path_simps)
  then obtain st' rs' where
    h: "concat_records ?s2 ?rs2 (Some [''out'']) = Inr (st', rs')" by blast
  from concat_records_small_groups [of ?rs2 ?s2 "Some [''out'']"] h
  have "\<forall>i < length ?rs2. length (snd (?rs2 ! i)) < 2 \<longrightarrow> rs' ! i = ?rs2 ! i" by blast
  then have "rs' ! 0 = (''cells.csv'', [?c])" by simp
  with h have b: "\<exists>st' rs'. concat_records ?s2 ?rs2 (Some [''out'']) = Inr (st', rs')
        \<and> rs' ! 0 = (''cells.csv'', [?c])" by blast
  have l: "length [?c] < 2" by simp
  show ?thesis by (rule conjI [OF l conjI [OF a b]])
qed

text \<open>
  Claim C9 fails on the code.  When the first member's parent directory has the
  name of its grandparent, the file written for the first member is the merged
  destination: it is unlinked as an old destination before anything is
  appended, and the run then fails reading it.
\<close>

theorem first_member_unlinked_before_append:
  "\<exists>st'.
     convert
       \<lparr>files = [[''root'', ''A'', ''A'', ''image.csv'']
                    \<mapsto> Csv [((''ImageNumber'', ''int64''), [AInt 1])],
                 [''root'', ''A'', ''B'', ''image.csv'']
                    \<mapsto> Csv [((''ImageNumber'', ''int64''), [AInt 2])]],
        dirs = {[''root''], [''root'', ''A''], [''root'', ''A'', ''A''], [''root'', ''A'', ''B'']},
        trace = []\<rparr>
       [([''root'', ''A'', ''A'', ''image.csv''], True),
        ([''root'', ''A'', ''B'', ''image.csv''], True)]
       [''out''] ''parquet'' None None True
     = Inl (st', FileNotFoundError)
     \<and> trace st' = [Wrote [''out'', ''A.image.parquet''],
                    Wrote [''out'', ''B.image.parquet''],
                    Unlinked [''out'', ''A.image.parquet'']]
     \<and> files st' [''out'', ''A.image.parquet''] = None
     \<and> files st' [''out'', ''B.image.parquet'']
         = Some (Parquet [((''ImageNumber'', ''int64''), [AInt 2])])"
  by (simp add: convert_def gather_records_def get_source_filepaths_def group_records_def
        infer_source_datatype_def filter_source_filepaths_def suffixes_def suffix_of_def
        DEFAULT_TARGETS_def new_record_def write_simps concat_simps path_simps string_simps)

section \<open>Properties of the column sort key\<close>

lemma startswith_Cons:
  "startswith s (p # ps) = (case s of [] \<Rightarrow> False | c # cs \<Rightarrow> c = p \<and> startswith cs ps)"
  by (cases s) simp_all

lemma sort_later_exclusive:
  assumes "j < length sort_later" "k < length sort_later"
    and "startswith s (sort_later ! j)" "startswith s (sort_later ! k)"
  shows "j = k"
proof -
  from assms(1) have j: "j = 0 \<or> j = 1 \<or> j = 2 \<or> j = 3"
    by (auto simp: sort_later_def)
  from assms(2) have k: "k = 0 \<or> k = 1 \<or> k = 2 \<or> k = 3"
    by (auto simp: sort_later_def)
  from j k assms(3,4) show ?thesis
    by (auto simp: sort_later_def startswith_Cons split: list.splits)
qed

lemma enumerate_startswith_first:
  assumes "k < length vs" "startswith s (vs ! k)"
    and "\<forall>j < k. \<not> startswith s (vs ! j)"
  shows "enumerate_startswith s vs n = Some (n + k)"
  using assms
proof (induction vs arbitrary: k n)
  case Nil
  then show ?case by simp
next
  case (Cons v vs)
  show ?case
  proof (cases k)
    case 0
    with Cons.prems show ?thesis by simp
  next
    case (Suc k')
    with Cons.prems have nv: "\<not> startswith s v" by auto
    from Suc Cons.prems have "k' < length vs" "startswith s (vs ! k')"
      "\<forall>j < k'. \<not> startswith s (vs ! j)" by auto
    from Cons.IH [OF this] nv Suc show ?thesis by simp
  qed
qed

lemma list_ex_nth: "list_ex P xs \<longleftrightarrow> (\<exists>k < length xs. P (xs ! k))"
  by (simp add: list_ex_iff Bex_def in_set_conv_nth) blast

lemma column_sort_later:
  assumes "lower c \<notin> set sort_first" "\<not> contains (lower c) sort_middle"
    and k: "k < length sort_later" "startswith (lower c) (sort_later ! k)"
  shows "column_sort c = 7 + k"
proof -
  have first: "\<forall>j < k. \<not> startswith (lower c) (sort_later ! j)"
  proof (intro allI impI notI)
    fix j assume "j < k" "startswith (lower c) (sort_later ! j)"
    with k sort_later_exclusive [of j k "lower c"] show False by simp
  qed
  from k have ex: "list_ex (startswith (lower c)) sort_later"
    unfolding list_ex_nth by blast
  have six: "length sort_first = 6" by (simp add: sort_first_def)
  from enumerate_startswith_first [OF k first, of "length sort_first + 1"] assms(1,2) ex
  have "column_sort c = length sort_first + 1 + k"
    by (simp add: column_sort_def Let_def)
  with six show ?thesis by simp
qed

lemma index_less: "x \<in> set xs \<Longrightarrow> index xs x < length xs"
  by (induction xs) auto

lemma nth_index: "x \<in> set xs \<Longrightarrow> xs ! index xs x = x"
  by (induction xs) auto

lemma write_parquet_keeps_table:
  assumes "write_parquet st r dest_path unique_name = Inr (st', r')"
  shows "\<exists>t p. table r = Some t \<and> destination_path r' = Some p
           \<and> files st' p = Some (Parquet t)"
  using assms by (auto simp: write_parquet_def Let_def split: option.splits)

text \<open>
  Claim C3, as the code has it.  \<^verbatim>\<open>write_parquet\<close> stores the table it is given,
  columns in their source order.  The sort key \<^verbatim>\<open>_column_sort\<close> ranks a column
  name, compared in lower case: the six identifier names get their position in
  the fixed list (0 to 5), any other name containing the metadata marker gets 6,
  any other name starting with an entity prefix gets 7 plus the position of the
  prefix, and every remaining name gets 11.  Sorting by the key orders the
  ranks and keeps the source order within a rank.
\<close>

theorem column_sort_ranks:
  "(\<forall>st' r'. write_parquet st r dest_path unique_name = Inr (st', r') \<longrightarrow>
       (\<exists>t p. table r = Some t \<and> destination_path r' = Some p
               \<and> files st' p = Some (Parquet t)))
   \<and> (lower c \<in> set sort_first \<longrightarrow>
        column_sort c < 6 \<and> sort_first ! column_sort c = lower c)
   \<and> (lower c \<notin> set sort_first \<and> contains (lower c) sort_middle \<longrightarrow> column_sort c = 6)
   \<and> (\<forall>k. lower c \<notin> set sort_first \<and> \<not> contains (lower c) sort_middle
          \<and> k < length sort_later \<and> startswith (lower c) (sort_later ! k)
        \<longrightarrow> column_sort c = 7 + k)
   \<and> (lower c \<notin> set sort_first \<and> \<not> contains (lower c) sort_middle
        \<and> \<not> list_ex (startswith (lower c)) sort_later \<longrightarrow> column_sort c = 11)
   \<and> sorted (map column_sort (sort_key column_sort cols))
   \<and> (\<forall>k. filter (\<lambda>x. column_sort x = k) (sort_key column_sort cols)
          = filter (\<lambda>x. column_sort x = k) cols)"
proof -
  have w: "\<forall>st' r'. write_parquet st r dest_path unique_name = Inr (st', r') \<longrightarrow>
       (\<exists>t p. table r = Some t \<and> destination_path r' = Some p
               \<and> files st' p = Some (Parquet t))"
    using write_parquet_keeps_table by blast
  have a: "column_sort c < 6 \<and> sort_first ! column_sort c = lower c"
    if "lower c \<in> set sort_first"
  proof -
    from that have "column_sort c = index sort_first (lower c)"
      by (simp add: column_sort_def Let_def)
    moreover have "length sort_first = 6" by (simp add: sort_first_def)
    ultimately show ?thesis using index_less [OF that] nth_index [OF that] by simp
  qed
  have b: "column_sort c = 6" if "lower c \<notin> set sort_first \<and> contains (lower c) sort_middle"
    using that by (simp add: column_sort_def Let_def sort_first_def)
  have d: "column_sort c = 11"
    if "lower c \<notin> set sort_first \<and> \<not> contains (lower c) sort_middle
        \<and> \<not> list_ex (startswith (lower c)) sort_later"
    using that by (simp add: column_sort_def Let_def sort_first_def sort_later_def)
  have s: "sorted (map column_sort (sort_key column_sort cols))"
    by (rule sorted_sort_key)
  have f: "\<forall>k. filter (\<lambda>x. column_sort x = k) (sort_key column_sort cols)
          = filter (\<lambda>x. column_sort x = k) cols"
    by (simp add: sort_key_stable)
  from w a b column_sort_later d s f show ?thesis by blast
qed

theorem column_sort_ranks_witness:
  "lower ''ImageNumber'' \<in> set sort_first
   \<and> column_sort ''ImageNumber'' < 6
   \<and> lower ''Image_Metadata_Well'' \<notin> set sort_first
   \<and> contains (lower ''Image_Metadata_Well'') sort_middle
   \<and> column_sort ''Image_Metadata_Well'' = 6
   \<and> lower ''Cells_AreaShape_Area'' \<notin> set sort_first
   \<and> \<not> contains (lower ''Cells_AreaShape_Area'') sort_middle
   \<and> startswith (lower ''Cells_AreaShape_Area'') (sort_later ! 2)
   \<and> column_sort ''Cells_AreaShape_Area'' = 7 + 2
   \<and> \<not> list_ex (startswith (lower ''Well'')) sort_later
   \<and> column_sort ''Well'' = 11"
proof -
  have i: "lower ''ImageNumber'' \<in> set sort_first"
    by (simp add: sort_first_def string_simps)
  have m1: "lower ''Image_Metadata_Well'' \<notin> set sort_first"
    by (simp add: sort_first_def string_simps)
  have m2: "contains (lower ''Image_Metadata_Well'') sort_middle"
    by (simp add: sort_middle_def string_simps)
  have c1: "lower ''Cells_AreaShape_Area'' \<notin> set sort_first"
    by (simp add: sort_first_def string_simps)
  have c2: "\<not> contains (lower ''Cells_AreaShape_Area'') sort_middle"
    by (simp add: sort_middle_def string_simps)
  have c3: "startswith (lower ''Cells_AreaShape_Area'') (sort_later ! 2)"
    by (simp add: sort_later_def string_simps)
  have c4: "2 < length sort_later" by (simp add: sort_later_def)
  have w1: "lower ''Well'' \<notin> set sort_first"
    by (simp add: sort_first_def string_simps)
  have w2: "\<not> contains (lower ''Well'') sort_middle"
    by (simp add: sort_middle_def string_simps)
  have w3: "\<not> list_ex (startswith (lower ''Well'')) sort_later"
    by (simp add: sort_later_def string_simps)
  from column_sort_ranks [of _ _ _ _ "''ImageNumber''"] i
  have ri: "column_sort ''ImageNumber'' < 6" by blast
  from column_sort_ranks [of _ _ _ _ "''Image_Metadata_Well''"] m1 m2
  have rm: "column_sort ''Image_Metadata_Well'' = 6" by blast
  from column_sort_ranks [of _ _ _ _ "''Cells_AreaShape_Area''"] c1 c2 c3 c4
  have rc: "column_sort ''Cells_AreaShape_Area'' = 7 + 2" by blast
  from column_sort_ranks [of _ _ _ _ "''Well''"] w1 w2 w3
  have rw: "column_sort ''Well'' = 11" by blast
  from i ri m1 m2 rm c1 c2 c3 rc w3 rw show ?thesis by (intro conjI)
qed

text \<open>
  The writer does not sort: a table whose entity column comes before its
  identifier column is stored in that order, while sorting the names by the key
  puts the identifier first.
\<close>

theorem write_parquet_source_order_counterexample:
  "write_parquet \<lparr>files = Map.empty, dirs = {}, trace = []\<rparr>
     \<lparr>source_path = [''data'', ''plate1'', ''cells.csv''],
      table = Some [((''Cells_AreaShape_Area'', ''int64''), [AInt 7]),
                    ((''ImageNumber'', ''int64''), [AInt 1])],
      destination_path = None\<rparr>
     [''out''] False
   = Inr (\<lparr>files = [[''out'', ''cells.parquet'']
                       \<mapsto> Parquet [((''Cells_AreaShape_Area'', ''int64''), [AInt 7]),
                                   ((''ImageNumber'', ''int64''), [AInt 1])]],
            dirs = {[''out'']},
            trace = [Wrote [''out'', ''cells.parquet'']]\<rparr>,
          \<lparr>source_path = [''data'', ''plate1'', ''cells.csv''], table = None,
            destination_path = Some [''out'', ''cells.parquet'']\<rparr>)
   \<and> sort_key column_sort [''Cells_AreaShape_Area'', ''ImageNumber'']
       = [''ImageNumber'', ''Cells_AreaShape_Area'']"
proof -
  have a: "column_sort ''Cells_AreaShape_Area'' = 9"
    by (simp add: column_sort_def sort_first_def sort_middle_def sort_later_def string_simps)
  have b: "column_sort ''ImageNumber'' = 2"
    by (simp add: column_sort_def sort_first_def sort_middle_def sort_later_def string_simps)
  have s: "sort_key column_sort [''Cells_AreaShape_Area'', ''ImageNumber'']
       = [''ImageNumber'', ''Cells_AreaShape_Area'']"
    by (simp add: a b)
  have w: "write_parquet \<lparr>files = Map.empty, dirs = {}, trace = []\<rparr>
     \<lparr>source_path = [''data'', ''plate1'', ''cells.csv''],
      table = Some [((''Cells_AreaShape_Area'', ''int64''), [AInt 7]),
                    ((''ImageNumber'', ''int64''), [AInt 1])],
      destination_path = None\<rparr>
     [''out''] False
   = Inr (\<lparr>files = [[''out'', ''cells.parquet'']
                       \<mapsto> Parquet [((''Cells_AreaShape_Area'', ''int64''), [AInt 7]),
                                   ((''ImageNumber'', ''int64''), [AInt 1])]],
            dirs = {[''out'']},
            trace = [Wrote [''out'', ''cells.parquet'']]\<rparr>,
          \<lparr>source_path = [''data'', ''plate1'', ''cells.csv''], table = None,
            destination_path = Some [''out'', ''cells.parquet'']\<rparr>)"
    by (simp add: write_simps path_simps)
  from w s show ?thesis by (rule conjI)
qed

section \<open>Properties of the ChunkedExtractor\<close>

lemmas sql_simps =
  sqlite_mixed_type_query_to_parquet_def select_parts_def query_parts_def
  limit_offset_def int64_def

lemma bare_names:
  "bare [''select'', ''from'', ''where'', ''case'', ''when'', ''then'', ''else'', ''null'', ''limit'', ''as'']
     ''Cells''"
  "bare [''select'', ''from'', ''where'', ''case'', ''when'', ''then'', ''else'', ''null'', ''limit'', ''as'']
     ''ImageNumber''"
  "bare [''select'', ''from'', ''where'', ''case'', ''when'', ''then'', ''else'', ''null'', ''limit'', ''as'']
     ''ObjectNumber''"
  "bare [''select'', ''from'', ''where'', ''case'', ''when'', ''then'', ''else'', ''null'', ''limit'', ''as'']
     ''AreaShape_Area''"
  "bare [''select'', ''from'', ''where'', ''case'', ''when'', ''then'', ''else'', ''null'', ''limit'', ''as'']
     ''Name''"
  by code_simp+

text \<open>
  Claim C1 fails on the code.  The test is whether the name of the storage
  class equals the lowercased text of the declared type, so a cell keeps its
  value only in a column declared with one of the five class names.  In a
  column declared \<^verbatim>\<open>BIGINT\<close>, \<^verbatim>\<open>FLOAT\<close> or \<^verbatim>\<open>VARCHAR(10)\<close> an integer, a real and
  a text, each of the column's own type, are replaced by null; only the cell of
  the column declared \<^verbatim>\<open>INTEGER\<close> is passed through.
\<close>

theorem declared_type_cells_nulled:
  "sqlite_mixed_type_query_to_parquet
     [''select'', ''from'', ''where'', ''case'', ''when'', ''then'', ''else'', ''null'', ''limit'', ''as'']
     [''Cells'' \<mapsto>
        \<lparr>column_info = [(''ImageNumber'', ''INTEGER''), (''ObjectNumber'', ''BIGINT''),
                        (''AreaShape_Area'', ''FLOAT''), (''Name'', ''VARCHAR(10)'')],
         table_rows = [[SqlInteger 1, SqlInteger 7, SqlReal 0x4059000000000000, SqlText ''a'']]\<rparr>]
     ''Cells'' 10 0 [''out'', ''cells-0.parquet''] {[''out'']} Map.empty
   = Inr ([[''out'', ''cells-0.parquet'']
             \<mapsto> [[(''ImageNumber'', SqlInteger 1), (''ObjectNumber'', SqlNull),
                   (''AreaShape_Area'', SqlNull), (''Name'', SqlNull)]]],
          [''out'', ''cells-0.parquet''])"
  by (simp add: sql_simps bare_names parent_def string_simps)

section \<open>Column order of concatenation\<close>



















end
